theory Spec2Isabelle
  imports Main "HOL-Library.Log_Nat"
begin

section \<open>Sequence-parallel size selection (optimized\_comms.py)\<close>

text \<open>
  \<^verbatim>\<open>get_optimal_sp_size(num_gpus, sequence_length)\<close> walks the candidate list
  \<^verbatim>\<open>[1, 2, 4, 8]\<close> in reverse and returns the first size that does not exceed the
  number of GPUs and divides the sequence length; the statement after the loop returns 1.
  Python integers are unbounded, so both arguments are \<^typ>\<open>int\<close>; Python's \<^verbatim>\<open>%\<close>
  with a positive divisor is the floored remainder, which is \<open>mod\<close> on \<^typ>\<open>int\<close>.
\<close>

definition valid_sizes :: "int list" where
  "valid_sizes = [1, 2, 4, 8]"

fun sp_scan :: "int \<Rightarrow> int \<Rightarrow> int list \<Rightarrow> int" where
  "sp_scan num_gpus sequence_length [] = 1"
| "sp_scan num_gpus sequence_length (sz # rest) =
     (if num_gpus \<ge> sz \<and> sequence_length mod sz = 0 then sz
      else sp_scan num_gpus sequence_length rest)"

definition get_optimal_sp_size :: "int \<Rightarrow> int \<Rightarrow> int" where
  "get_optimal_sp_size num_gpus sequence_length =
     sp_scan num_gpus sequence_length (rev valid_sizes)"

section \<open>Python exceptions\<close>

text \<open>
  Every \<^verbatim>\<open>raise\<close> of the source, and every exception a Python operation of the source
  can throw, is a value of this type; functions that can raise return \<open>py_error + 'a\<close>
  with \<open>Inl\<close> for the exception.
\<close>

datatype py_error =
    RuntimeError string
  | ValueError string
  | KeyError string
  | FileNotFoundError string
  | AttributeError string
  | ZeroDivisionError
  | OverflowError
  | IndexError

section \<open>Python floats\<close>

text \<open>
  A Python \<^verbatim>\<open>float\<close> is an IEEE 754 binary64 number. A finite one is a pair of integers
  \<open>Finite m e\<close> standing for \<open>m \<times> 2\<^sup>e\<close>; the pair is not normalised, and every comparison
  goes through the value. The sign of a zero is not kept: it shows only in operations
  the modelled code does not use. All arithmetic below is integer arithmetic, so that
  concrete inputs evaluate inside the kernel.
\<close>

datatype pyfloat = Finite int int | PosInf | NegInf | NaN

function bit_length :: "int \<Rightarrow> int" where
  "bit_length n = (if n \<le> 0 then 0 else 1 + bit_length (n div 2))"
  by pat_completeness auto
termination
  by (relation "measure nat") auto

function two_pow :: "int \<Rightarrow> int" where
  "two_pow n = (if n \<le> 0 then 1 else 2 * two_pow (n - 1))"
  by pat_completeness auto
termination
  by (relation "measure nat") auto

declare bit_length.simps [simp del] two_pow.simps [simp del]

text \<open>The integer nearest to \<open>num / den\<close> for \<open>den > 0\<close>, a tie going to the even one.\<close>

definition round_half_even :: "int \<Rightarrow> int \<Rightarrow> int" where
  "round_half_even num den =
     (let f = num div den; r = num mod den
      in if 2 * r < den then f else if den < 2 * r then f + 1
         else if even f then f else f + 1)"

text \<open>\<open>\<lfloor>log\<^sub>2 (a / den)\<rfloor>\<close> for \<open>a > 0\<close> and \<open>den > 0\<close>.\<close>

definition floor_log2 :: "int \<Rightarrow> int \<Rightarrow> int" where
  "floor_log2 a den =
     (let e0 = bit_length a - bit_length den
      in if (if 0 \<le> e0 then den * two_pow e0 \<le> a else den \<le> a * two_pow (- e0))
         then e0 else e0 - 1)"

text \<open>
  \<open>round_float p emin emax num den e\<close> rounds \<open>(num / den) \<times> 2\<^sup>e\<close> (with \<open>den > 0\<close>) to the
  binary format with \<open>p\<close> significant bits, least normal exponent \<open>emin\<close> and values below
  \<open>2\<^sup>e\<^sup>m\<^sup>a\<^sup>x\<close>: round to nearest, ties to even, gradual underflow, overflow to infinity.
\<close>

definition round_float :: "int \<Rightarrow> int \<Rightarrow> int \<Rightarrow> int \<Rightarrow> int \<Rightarrow> int \<Rightarrow> pyfloat" where
  "round_float p emin emax num den e =
     (if num = 0 then Finite 0 0
      else let k = max (floor_log2 \<bar>num\<bar> den + e) emin - p + 1;
               s = e - k;
               m = (if 0 \<le> s then round_half_even (num * two_pow s) den
                    else round_half_even num (den * two_pow (- s)))
           in if emax - p < k \<or> (emax - p = k \<and> two_pow p \<le> \<bar>m\<bar>)
              then (if 0 < num then PosInf else NegInf)
              else Finite m k)"

definition to_double :: "int \<Rightarrow> int \<Rightarrow> int \<Rightarrow> pyfloat" where
  "to_double num den e = round_float 53 (- 1022) 1024 num den e"

text \<open>A decimal literal of the source, such as \<^verbatim>\<open>0.3\<close>, is the double nearest to it.\<close>

definition float_lit :: "int \<Rightarrow> int \<Rightarrow> pyfloat" where
  "float_lit num den = to_double num den 0"

text \<open>The value of a finite float, for stating what a result is.\<close>

definition fvalue :: "pyfloat \<Rightarrow> rat" where
  "fvalue x = (case x of
      Finite m e \<Rightarrow> (if 0 \<le> e then of_int m * 2 ^ nat e else of_int m / 2 ^ nat (- e))
    | _ \<Rightarrow> 0)"

text \<open>Two finite floats brought to a common exponent.\<close>

definition aligned :: "int \<Rightarrow> int \<Rightarrow> int \<Rightarrow> int \<Rightarrow> int \<times> int" where
  "aligned m1 e1 m2 e2 =
     (if e2 \<le> e1 then (m1 * two_pow (e1 - e2), m2) else (m1, m2 * two_pow (e2 - e1)))"

text \<open>The comparisons \<^verbatim>\<open><\<close>, \<^verbatim>\<open><=\<close>, \<^verbatim>\<open>>=\<close> and \<^verbatim>\<open>==\<close>; each is false when an operand is NaN.\<close>

fun fless :: "pyfloat \<Rightarrow> pyfloat \<Rightarrow> bool" where
  "fless NaN y = False"
| "fless x NaN = False"
| "fless (Finite m1 e1) (Finite m2 e2) = (case aligned m1 e1 m2 e2 of (a, b) \<Rightarrow> a < b)"
| "fless PosInf y = False"
| "fless x PosInf = True"
| "fless NegInf y = (y \<noteq> NegInf)"
| "fless x NegInf = False"

fun fle :: "pyfloat \<Rightarrow> pyfloat \<Rightarrow> bool" where
  "fle NaN y = False"
| "fle x NaN = False"
| "fle (Finite m1 e1) (Finite m2 e2) = (case aligned m1 e1 m2 e2 of (a, b) \<Rightarrow> a \<le> b)"
| "fle x PosInf = True"
| "fle PosInf y = False"
| "fle NegInf y = True"
| "fle x NegInf = False"

fun feq :: "pyfloat \<Rightarrow> pyfloat \<Rightarrow> bool" where
  "feq (Finite m1 e1) (Finite m2 e2) = (case aligned m1 e1 m2 e2 of (a, b) \<Rightarrow> a = b)"
| "feq PosInf PosInf = True"
| "feq NegInf NegInf = True"
| "feq x y = False"


definition fsign :: "pyfloat \<Rightarrow> int" where
  "fsign x = (case x of Finite m e \<Rightarrow> sgn m | PosInf \<Rightarrow> 1 | NegInf \<Rightarrow> - 1 | NaN \<Rightarrow> 0)"

text \<open>\<^verbatim>\<open>x * y\<close> on floats never raises.\<close>

fun fmul :: "pyfloat \<Rightarrow> pyfloat \<Rightarrow> pyfloat" where
  "fmul NaN y = NaN"
| "fmul x NaN = NaN"
| "fmul (Finite m1 e1) (Finite m2 e2) = to_double (m1 * m2) 1 (e1 + e2)"
| "fmul x y = (let sg = fsign x * fsign y
               in if sg = 0 then NaN else if 0 < sg then PosInf else NegInf)"

text \<open>\<^verbatim>\<open>x / y\<close> on floats raises \<^verbatim>\<open>ZeroDivisionError\<close> when \<open>y\<close> is zero.\<close>

fun fdiv :: "pyfloat \<Rightarrow> pyfloat \<Rightarrow> py_error + pyfloat" where
  "fdiv x (Finite m2 e2) =
     (if m2 = 0 then Inl ZeroDivisionError
      else case x of
             Finite m1 e1 \<Rightarrow> Inr (to_double (m1 * sgn m2) \<bar>m2\<bar> (e1 - e2))
           | NaN \<Rightarrow> Inr NaN
           | _ \<Rightarrow> Inr (if 0 < fsign x * sgn m2 then PosInf else NegInf))"
| "fdiv x NaN = Inr NaN"
| "fdiv (Finite m1 e1) y = Inr (Finite 0 0)"
| "fdiv x y = Inr NaN"

text \<open>
  Converting an \<^verbatim>\<open>int\<close> to a float, as mixed arithmetic does, and the true division
  \<^verbatim>\<open>a / b\<close> of two \<^verbatim>\<open>int\<close>s: both are correctly rounded and raise \<^verbatim>\<open>OverflowError\<close> when the
  result is beyond the float range.
\<close>

definition int_to_float :: "int \<Rightarrow> py_error + pyfloat" where
  "int_to_float n = (case to_double n 1 0 of
                       Finite m e \<Rightarrow> Inr (Finite m e) | _ \<Rightarrow> Inl OverflowError)"

definition int_true_div :: "int \<Rightarrow> int \<Rightarrow> py_error + pyfloat" where
  "int_true_div a b =
     (if b = 0 then Inl ZeroDivisionError
      else case to_double (a * sgn b) \<bar>b\<bar> 0 of
             Finite m e \<Rightarrow> Inr (Finite m e) | _ \<Rightarrow> Inl OverflowError)"

section \<open>GPU allocation catalogue (gpu\_manager.py)\<close>

record GPUAllocation =
  mode :: string
  num_gpus :: int
  sp_size :: int
  use_fsdp :: bool
  fsdp_strategy :: "string option"
  description :: string

definition alloc_auto :: GPUAllocation where
  "alloc_auto = \<lparr>mode = ''auto'', num_gpus = -1, sp_size = 1, use_fsdp = False,
     fsdp_strategy = None, description = ''Automatically distribute across available GPUs''\<rparr>"

definition alloc_single :: GPUAllocation where
  "alloc_single = \<lparr>mode = ''single'', num_gpus = 1, sp_size = 1, use_fsdp = False,
     fsdp_strategy = None, description = ''Use single GPU''\<rparr>"

definition alloc_multi_2 :: GPUAllocation where
  "alloc_multi_2 = \<lparr>mode = ''multi_2'', num_gpus = 2, sp_size = 2, use_fsdp = False,
     fsdp_strategy = None, description = ''Sequence parallel across 2 GPUs''\<rparr>"

definition alloc_multi_4 :: GPUAllocation where
  "alloc_multi_4 = \<lparr>mode = ''multi_4'', num_gpus = 4, sp_size = 4, use_fsdp = False,
     fsdp_strategy = None, description = ''Sequence parallel across 4 GPUs''\<rparr>"

definition alloc_multi_8 :: GPUAllocation where
  "alloc_multi_8 = \<lparr>mode = ''multi_8'', num_gpus = 8, sp_size = 8, use_fsdp = False,
     fsdp_strategy = None, description = ''Sequence parallel across 8 GPUs''\<rparr>"

definition alloc_fsdp :: GPUAllocation where
  "alloc_fsdp = \<lparr>mode = ''fsdp'', num_gpus = -1, sp_size = 1, use_fsdp = True,
     fsdp_strategy = Some ''FULL_SHARD'',
     description = ''FSDP sharded inference for memory efficiency''\<rparr>"

text \<open>The dictionary \<^verbatim>\<open>GPU_ALLOCATIONS\<close>, in the order the source lists its keys.\<close>

definition GPU_ALLOCATIONS :: "(string \<times> GPUAllocation) list" where
  "GPU_ALLOCATIONS =
     [(''auto'', alloc_auto), (''single'', alloc_single), (''multi_2'', alloc_multi_2),
      (''multi_4'', alloc_multi_4), (''multi_8'', alloc_multi_8), (''fsdp'', alloc_fsdp)]"

text \<open>Subscripting a dictionary raises \<^verbatim>\<open>KeyError\<close> on a missing key.\<close>

definition dict_get :: "(string \<times> 'v) list \<Rightarrow> string \<Rightarrow> py_error + 'v" where
  "dict_get d k = (case map_of d k of None \<Rightarrow> Inl (KeyError k) | Some v \<Rightarrow> Inr v)"

section \<open>The GPU manager (gpu\_manager.py)\<close>

text \<open>
  \<^verbatim>\<open>GPUManager.__init__\<close> stores \<^verbatim>\<open>torch.cuda.device_count()\<close> in \<^verbatim>\<open>self.num_gpus\<close> and
  the total memory in bytes of each device in \<^verbatim>\<open>self.gpu_memory\<close>. The field of the
  manager is called \<open>mgr_num_gpus\<close> here, since the allocation record already has a field
  \<open>num_gpus\<close>. The device count is a count, hence a \<^typ>\<open>nat\<close>.
\<close>

record GPUManager =
  mgr_num_gpus :: nat
  gpu_memory :: "int list"



text \<open>
  Messages passed to \<^verbatim>\<open>logger.warning\<close>. What \<^verbatim>\<open>logger.info\<close> prints is not kept, but an
  expression inside its f-string that can raise is evaluated in the model.
\<close>

datatype warning =
    UnknownAllocationMode string
  | RequestedMoreGPUs int nat
  | UnknownVRAMMode string

text \<open>
  \<^verbatim>\<open>allocate_gpus\<close>: an unknown name is replaced by \<^verbatim>\<open>'auto'\<close>, the allocation is read
  from the catalogue, \<^verbatim>\<open>'auto'\<close> is resolved from the device count, and an allocation
  asking for more devices than exist is replaced from the device count again. The result
  carries the warnings in the order they are logged.
\<close>

definition allocate_gpus :: "GPUManager \<Rightarrow> string \<Rightarrow> py_error + (warning list \<times> GPUAllocation)" where
  "allocate_gpus self allocation_mode0 =
     (let known = (allocation_mode0 \<in> set (map fst GPU_ALLOCATIONS));
          w1 = (if known then [] else [UnknownAllocationMode allocation_mode0]);
          allocation_mode = (if known then allocation_mode0 else ''auto'')
      in case dict_get GPU_ALLOCATIONS allocation_mode of
           Inl e \<Rightarrow> Inl e
         | Inr allocation0 \<Rightarrow>
            (let allocation1 =
                   (if allocation_mode = ''auto'' then
                      (if mgr_num_gpus self = 1 then alloc_single
                       else if mgr_num_gpus self = 2 then alloc_multi_2
                       else if mgr_num_gpus self \<ge> 4 then alloc_multi_4
                       else alloc_single)
                    else allocation0)
             in if num_gpus allocation1 > 0 \<and> num_gpus allocation1 > int (mgr_num_gpus self)
                then Inr (w1 @ [RequestedMoreGPUs (num_gpus allocation1) (mgr_num_gpus self)],
                          (if mgr_num_gpus self \<ge> 4 then alloc_multi_4
                           else if mgr_num_gpus self = 2 then alloc_multi_2
                           else alloc_single))
                else Inr (w1, allocation1)))"

text \<open>
  \<^verbatim>\<open>max(xs)\<close> raises \<^verbatim>\<open>ValueError\<close> on an empty list; \<^verbatim>\<open>xs.index(v)\<close> returns the first
  position of \<open>v\<close> and raises \<^verbatim>\<open>ValueError\<close> when \<open>v\<close> does not occur.
\<close>

definition py_max :: "int list \<Rightarrow> py_error + int" where
  "py_max xs = (case xs of [] \<Rightarrow> Inl (ValueError ''max() arg is an empty sequence'')
                | x # rest \<Rightarrow> Inr (fold max rest x))"

fun py_index :: "int list \<Rightarrow> int \<Rightarrow> py_error + nat" where
  "py_index [] v = Inl (ValueError ''not in list'')"
| "py_index (x # xs) v =
     (if x = v then Inr 0
      else case py_index xs v of Inl e \<Rightarrow> Inl e | Inr i \<Rightarrow> Inr (Suc i))"

text \<open>
  \<^verbatim>\<open>get_best_gpu\<close>: the free memory of device \<open>i\<close> is what
  \<^verbatim>\<open>torch.cuda.mem_get_info()[0]\<close> answers after \<^verbatim>\<open>torch.cuda.set_device(i)\<close>; the runtime
  is a parameter \<open>mem_get_info\<close>, queried once per device in ascending order. The
  f-string of the closing \<^verbatim>\<open>logger.info\<close> call divides the best device's free memory by
  \<^verbatim>\<open>1024**3\<close> before anything is logged, so an exception of that division is an
  exception of \<^verbatim>\<open>get_best_gpu\<close>.
\<close>

definition get_best_gpu :: "GPUManager \<Rightarrow> (nat \<Rightarrow> int) \<Rightarrow> py_error + nat" where
  "get_best_gpu self mem_get_info =
     (if mgr_num_gpus self = 0 then Inl (RuntimeError ''No GPUs available'')
      else let free_memory = map mem_get_info [0 ..< mgr_num_gpus self]
           in case py_max free_memory of
                Inl e \<Rightarrow> Inl e
              | Inr m \<Rightarrow>
                 (case py_index free_memory m of
                    Inl e \<Rightarrow> Inl e
                  | Inr best_gpu \<Rightarrow>
                     (case int_true_div (free_memory ! best_gpu) (1024 ^ 3) of
                        Inl e \<Rightarrow> Inl e
                      | Inr gb_free \<Rightarrow> Inr best_gpu)))"

section \<open>VRAM modes and the VRAM estimate (gpu\_manager.py)\<close>











section \<open>Choice of the sharding strategy (fsdp.py)\<close>

text \<open>The members of \<^verbatim>\<open>torch.distributed.fsdp.ShardingStrategy\<close>.\<close>

datatype ShardingStrategy = FULL_SHARD | SHARD_GRAD_OP | NO_SHARD | HYBRID_SHARD | HYBRID_SHARD_ZERO2

text \<open>
  \<^verbatim>\<open>get_optimal_sharding_strategy\<close>: \<^verbatim>\<open>model_size_gb / num_gpus\<close> divides a float by an
  \<^verbatim>\<open>int\<close>, which converts the \<^verbatim>\<open>int\<close> first and raises \<^verbatim>\<open>ZeroDivisionError\<close> for zero.
\<close>

definition get_optimal_sharding_strategy :: "int \<Rightarrow> pyfloat \<Rightarrow> pyfloat \<Rightarrow> py_error + ShardingStrategy" where
  "get_optimal_sharding_strategy n_gpus model_size_gb available_memory_gb =
     (case int_to_float n_gpus of
        Inl e \<Rightarrow> Inl e
      | Inr n \<Rightarrow>
         (case fdiv model_size_gb n of
            Inl e \<Rightarrow> Inl e
          | Inr memory_per_gpu \<Rightarrow>
             (if fless memory_per_gpu (fmul available_memory_gb (float_lit 5 10))
              then Inr SHARD_GRAD_OP
              else if fless memory_per_gpu (fmul available_memory_gb (float_lit 8 10))
              then Inr FULL_SHARD
              else Inr HYBRID_SHARD)))"

section \<open>Tensors and the process-group runtime (optimized\_comms.py)\<close>

text \<open>
  A tensor is its shape and its elements in row-major order; the memory layout is not
  kept, so \<^verbatim>\<open>t.contiguous()\<close> is the tensor itself. The three library operations the
  module uses follow the PyTorch documentation.
\<close>

datatype 'a tensor = Tensor (shape: "nat list") (elems: "'a list")

definition prod_list_nat :: "nat list \<Rightarrow> nat" where
  "prod_list_nat xs = fold (*) xs 1"

text \<open>A dimension argument may be negative and then counts from the last dimension.\<close>

definition wrap_dim :: "nat \<Rightarrow> int \<Rightarrow> py_error + nat" where
  "wrap_dim ndim d =
     (if - int ndim \<le> d \<and> d < int ndim then Inr (nat (d mod int ndim)) else Inl IndexError)"

text \<open>\<^verbatim>\<open>torch.narrow(t, d, start, len)\<close> for a dimension \<open>d\<close> already in range.\<close>

definition narrow :: "'a tensor \<Rightarrow> nat \<Rightarrow> nat \<Rightarrow> nat \<Rightarrow> 'a tensor" where
  "narrow t d start len =
     (let outer = prod_list_nat (take d (shape t));
          inner = prod_list_nat (drop (Suc d) (shape t));
          n = shape t ! d
      in Tensor ((shape t)[d := len])
           (concat (map (\<lambda>out. take (len * inner) (drop ((out * n + start) * inner) (elems t)))
                        [0 ..< outer])))"

text \<open>
  \<^verbatim>\<open>torch.tensor_split(t, sections, dim)\<close> with an integer number of sections: always
  \<open>sections\<close> pieces; when the length \<open>n\<close> of the dimension is not a multiple, the first
  \<open>n mod sections\<close> pieces are one longer. It needs a positive number of sections and a
  tensor of at least one dimension.
\<close>

definition tensor_split :: "'a tensor \<Rightarrow> int \<Rightarrow> int \<Rightarrow> py_error + 'a tensor list" where
  "tensor_split t sections axis =
     (if shape t = [] then Inl (RuntimeError ''tensor_split expected at least a 1-dimensional tensor'')
      else if sections \<le> 0 then Inl (RuntimeError ''number of sections must be larger than 0'')
      else case wrap_dim (length (shape t)) axis of
             Inl e \<Rightarrow> Inl e
           | Inr d \<Rightarrow>
              (let w = nat sections; n = shape t ! d;
                   min_split = n div w; extra = n mod w
               in Inr (map (\<lambda>i. narrow t d (i * min_split + min i extra)
                                          (min_split + (if i < extra then 1 else 0)))
                           [0 ..< w])))"

text \<open>
  \<^verbatim>\<open>torch.cat(ts, dim)\<close>: a non-empty list of tensors that agree in every dimension but
  \<open>dim\<close>.
\<close>

definition cat :: "'a tensor list \<Rightarrow> int \<Rightarrow> py_error + 'a tensor" where
  "cat ts axis =
     (case ts of
        [] \<Rightarrow> Inl (RuntimeError ''torch.cat(): expected a non-empty list of Tensors'')
      | t0 # rest \<Rightarrow>
         (case wrap_dim (length (shape t0)) axis of
            Inl e \<Rightarrow> Inl e
          | Inr d \<Rightarrow>
             (if \<forall>t \<in> set rest. length (shape t) = length (shape t0)
                    \<and> (shape t)[d := 0] = (shape t0)[d := 0]
              then let outer = prod_list_nat (take d (shape t0));
                       inner = prod_list_nat (drop (Suc d) (shape t0))
                   in Inr (Tensor ((shape t0)[d := sum_list (map (\<lambda>t. shape t ! d) ts)])
                        (concat (map (\<lambda>out. concat (map (\<lambda>t.
                             take (shape t ! d * inner) (drop (out * (shape t ! d) * inner) (elems t))) ts))
                           [0 ..< outer])))
              else Inl (RuntimeError ''Sizes of tensors must match except in the concatenated dimension''))))"

text \<open>
  The process-group runtime is a parameter. \<open>nccl_info_group\<close> is \<^verbatim>\<open>nccl_info.group\<close> of
  the module \<^verbatim>\<open>parallel_states\<close>; \<open>get_world_size\<close> is \<^verbatim>\<open>dist.get_world_size\<close>, which raises
  when the group cannot be resolved. A collective hands its output buffers to the
  library, which fills them: \<open>all_to_all\<close>, \<open>all_gather\<close> and \<open>broadcast\<close> give the elements
  that arrive in the buffers on this rank at the \<open>k\<close>-th collective of a call, or the
  exception the library raises.
\<close>

type_synonym process_group = nat

record 'a dist_env =
  nccl_info_group :: "process_group option"
  get_world_size :: "process_group option \<Rightarrow> py_error + int"
  all_to_all :: "nat \<Rightarrow> process_group option \<Rightarrow> 'a tensor list \<Rightarrow> py_error + 'a list list"
  all_gather :: "nat \<Rightarrow> process_group option \<Rightarrow> 'a tensor \<Rightarrow> py_error + 'a list list"
  broadcast :: "nat \<Rightarrow> process_group option \<Rightarrow> int \<Rightarrow> 'a tensor \<Rightarrow> py_error + 'a list"

text \<open>What a call does to the runtime, in order.\<close>

datatype 'a event =
    ReadNcclInfoGroup
  | GetWorldSize "process_group option"
  | AllToAll "process_group option" "'a tensor list"
  | AllGather "process_group option" "'a tensor"
  | Broadcast "process_group option" int "'a tensor"

text \<open>\<^verbatim>\<open>if group is None: group = nccl_info.group\<close>, the opening of all four operations.\<close>

definition resolve_group :: "'a dist_env \<Rightarrow> process_group option \<Rightarrow> 'a event list \<times> process_group option" where
  "resolve_group env grp =
     (case grp of None \<Rightarrow> ([ReadNcclInfoGroup], nccl_info_group env) | Some g \<Rightarrow> ([], Some g))"

text \<open>
  The body of the \<^verbatim>\<open>for input_tensor in inputs\<close> loop, also the body of
  \<^verbatim>\<open>OptimizedAllToAll.forward\<close> past its short-circuit: split, allocate \<open>world_size\<close>
  buffers shaped like the first piece, one \<^verbatim>\<open>dist.all_to_all\<close>, and \<^verbatim>\<open>torch.cat\<close> of the
  buffers.
\<close>

definition all_to_all_one ::
  "'a dist_env \<Rightarrow> nat \<Rightarrow> process_group option \<Rightarrow> int \<Rightarrow> int \<Rightarrow> int \<Rightarrow> 'a tensor
     \<Rightarrow> 'a event list \<times> (py_error + 'a tensor)" where
  "all_to_all_one env k grp world_size scatter_dim gather_dim input_tensor =
     (case tensor_split input_tensor world_size scatter_dim of
        Inl e \<Rightarrow> ([], Inl e)
      | Inr input_list \<Rightarrow>
         (case input_list of
            [] \<Rightarrow> ([], Inl IndexError)
          | first # others \<Rightarrow>
             (case all_to_all env k grp input_list of
                Inl e \<Rightarrow> ([AllToAll grp input_list], Inl e)
              | Inr received \<Rightarrow>
                 ([AllToAll grp input_list],
                  cat (map (\<lambda>i. Tensor (shape first) (received ! i)) [0 ..< nat world_size])
                      gather_dim))))"

fun all_to_all_loop ::
  "'a dist_env \<Rightarrow> nat \<Rightarrow> process_group option \<Rightarrow> int \<Rightarrow> int \<Rightarrow> int \<Rightarrow> 'a tensor list
     \<Rightarrow> 'a event list \<times> (py_error + 'a tensor list)" where
  "all_to_all_loop env k grp world_size scatter_dim gather_dim [] = ([], Inr [])"
| "all_to_all_loop env k grp world_size scatter_dim gather_dim (input_tensor # rest) =
     (case all_to_all_one env k grp world_size scatter_dim gather_dim input_tensor of
        (evs, Inl e) \<Rightarrow> (evs, Inl e)
      | (evs, Inr out) \<Rightarrow>
         (case all_to_all_loop env (Suc k) grp world_size scatter_dim gather_dim rest of
            (evs', Inl e) \<Rightarrow> (evs @ evs', Inl e)
          | (evs', Inr outs) \<Rightarrow> (evs @ evs', Inr (out # outs))))"

definition batched_all_to_all ::
  "'a dist_env \<Rightarrow> 'a tensor list \<Rightarrow> int \<Rightarrow> int \<Rightarrow> process_group option
     \<Rightarrow> 'a event list \<times> (py_error + 'a tensor list)" where
  "batched_all_to_all env inputs scatter_dim gather_dim group0 =
     (case resolve_group env group0 of (evs, grp) \<Rightarrow>
        (case get_world_size env grp of
           Inl e \<Rightarrow> (evs @ [GetWorldSize grp], Inl e)
         | Inr world_size \<Rightarrow>
            (if world_size = 1 then (evs @ [GetWorldSize grp], Inr inputs)
             else case all_to_all_loop env 0 grp world_size scatter_dim gather_dim inputs of
                    (evs', r) \<Rightarrow> (evs @ [GetWorldSize grp] @ evs', r))))"

definition overlapped_all_gather ::
  "'a dist_env \<Rightarrow> 'a tensor \<Rightarrow> int \<Rightarrow> process_group option \<Rightarrow> 'a event list \<times> (py_error + 'a tensor)" where
  "overlapped_all_gather env input axis group0 =
     (case resolve_group env group0 of (evs, grp) \<Rightarrow>
        (case get_world_size env grp of
           Inl e \<Rightarrow> (evs @ [GetWorldSize grp], Inl e)
         | Inr world_size \<Rightarrow>
            (if world_size = 1 then (evs @ [GetWorldSize grp], Inr input)
             else case all_gather env 0 grp input of
                    Inl e \<Rightarrow> (evs @ [GetWorldSize grp, AllGather grp input], Inl e)
                  | Inr received \<Rightarrow>
                     (evs @ [GetWorldSize grp, AllGather grp input],
                      cat (map (\<lambda>i. Tensor (shape input) (received ! i)) [0 ..< nat world_size])
                          axis))))"

text \<open>
  \<^verbatim>\<open>efficient_broadcast\<close> asks for no world size: after the group it makes the tensor
  contiguous, calls \<^verbatim>\<open>dist.broadcast\<close>, which writes into the tensor, and returns it.
\<close>

definition efficient_broadcast ::
  "'a dist_env \<Rightarrow> 'a tensor \<Rightarrow> int \<Rightarrow> process_group option \<Rightarrow> 'a event list \<times> (py_error + 'a tensor)" where
  "efficient_broadcast env input src group0 =
     (case resolve_group env group0 of (evs, grp) \<Rightarrow>
        (case broadcast env 0 grp src input of
           Inl e \<Rightarrow> (evs @ [Broadcast grp src input], Inl e)
         | Inr received \<Rightarrow> (evs @ [Broadcast grp src input], Inr (Tensor (shape input) received))))"

text \<open>
  \<^verbatim>\<open>optimized_all_to_all\<close> resolves the group and applies \<^verbatim>\<open>OptimizedAllToAll\<close>, whose
  \<^verbatim>\<open>forward\<close> is modelled here.
\<close>

definition optimized_all_to_all ::
  "'a dist_env \<Rightarrow> 'a tensor \<Rightarrow> int \<Rightarrow> int \<Rightarrow> process_group option \<Rightarrow> 'a event list \<times> (py_error + 'a tensor)" where
  "optimized_all_to_all env input scatter_dim gather_dim group0 =
     (case resolve_group env group0 of (evs, grp) \<Rightarrow>
        (case get_world_size env grp of
           Inl e \<Rightarrow> (evs @ [GetWorldSize grp], Inl e)
         | Inr world_size \<Rightarrow>
            (if world_size = 1 then (evs @ [GetWorldSize grp], Inr input)
             else case all_to_all_one env 0 grp world_size scatter_dim gather_dim input of
                    (evs', r) \<Rightarrow> (evs @ [GetWorldSize grp] @ evs', r))))"

section \<open>Properties of the sequence-parallel size\<close>

lemma get_optimal_sp_size_cases:
  "get_optimal_sp_size n l =
     (if 8 \<le> n \<and> l mod 8 = 0 then 8
      else if 4 \<le> n \<and> l mod 4 = 0 then 4
      else if 2 \<le> n \<and> l mod 2 = 0 then 2
      else 1)"
  by (simp add: get_optimal_sp_size_def valid_sizes_def)

text \<open>
  Claim C10. For all \<open>num_gpus \<ge> 0\<close> and \<open>sequence_length \<ge> 0\<close> the result is the largest
  \<open>s\<close> among 8, 4, 2, 1 with \<open>s \<le> num_gpus\<close> and \<open>s\<close> dividing the sequence length, and 1
  when there is no such \<open>s\<close>; the result is a power of two, and a result above 1 divides
  the sequence length.
\<close>

theorem get_optimal_sp_size_largest:
  assumes "0 \<le> n" and "0 \<le> l"
  shows "(\<forall>s \<in> {8, 4, 2, 1}. s \<le> n \<and> l mod s = 0 \<longrightarrow>
            get_optimal_sp_size n l \<in> {8, 4, 2, 1} \<and>
            get_optimal_sp_size n l \<le> n \<and>
            l mod get_optimal_sp_size n l = 0 \<and>
            s \<le> get_optimal_sp_size n l)
       \<and> ((\<forall>s \<in> {8, 4, 2, 1}. \<not> (s \<le> n \<and> l mod s = 0)) \<longrightarrow> get_optimal_sp_size n l = 1)
       \<and> (\<exists>k::nat. get_optimal_sp_size n l = 2 ^ k)
       \<and> (1 < get_optimal_sp_size n l \<longrightarrow> get_optimal_sp_size n l dvd l)"
proof -
  let ?r = "get_optimal_sp_size n l"
  have range: "?r = 8 \<or> ?r = 4 \<or> ?r = 2 \<or> ?r = 1"
    by (simp add: get_optimal_sp_size_cases)
  have pow: "\<exists>k::nat. ?r = 2 ^ k"
  proof -
    have "(8::int) = 2 ^ 3" "(4::int) = 2 ^ 2" "(2::int) = 2 ^ 1" "(1::int) = 2 ^ 0"
      by simp_all
    with range show ?thesis by metis
  qed
  have dvd: "1 < ?r \<longrightarrow> ?r dvd l"
    by (auto simp add: get_optimal_sp_size_cases mod_eq_0_iff_dvd)
  have best: "\<forall>s \<in> {8, 4, 2, 1}. s \<le> n \<and> l mod s = 0 \<longrightarrow>
            ?r \<in> {8, 4, 2, 1} \<and> ?r \<le> n \<and> l mod ?r = 0 \<and> s \<le> ?r"
    by (simp add: get_optimal_sp_size_cases)
  have none: "(\<forall>s \<in> {8, 4, 2, 1}. \<not> (s \<le> n \<and> l mod s = 0)) \<longrightarrow> ?r = 1"
    by (simp add: get_optimal_sp_size_cases)
  from best none pow dvd show ?thesis by blast
qed

theorem get_optimal_sp_size_largest_witness:
  "get_optimal_sp_size 6 12 = 4 \<and> (4::int) \<le> 6 \<and> (12::int) mod 4 = 0
   \<and> get_optimal_sp_size 6 12 dvd 12 \<and> (\<exists>k::nat. get_optimal_sp_size 6 12 = 2 ^ k)"
proof -
  have h: "(0::int) \<le> 6" "(0::int) \<le> 12" by simp_all
  have v: "get_optimal_sp_size 6 12 = 4"
    by (simp add: get_optimal_sp_size_def valid_sizes_def)
  from get_optimal_sp_size_largest [OF h] v show ?thesis by simp
qed



section \<open>Properties of the float model\<close>

lemma bit_length_nonneg: "0 \<le> bit_length n"
  by (induction n rule: bit_length.induct) (subst bit_length.simps, simp)

lemma two_pow_pos: "0 < two_pow n"
  by (induction n rule: two_pow.induct) (subst two_pow.simps, simp)

lemma two_pow_Suc: "0 < n \<Longrightarrow> two_pow n = 2 * two_pow (n - 1)"
  by (subst two_pow.simps) simp

lemma two_pow_eq: "0 \<le> n \<Longrightarrow> two_pow n = 2 ^ nat n"
proof (induction n rule: two_pow.induct)
  case (1 n)
  show ?case
  proof (cases "n \<le> 0")
    case True
    with "1.prems" have "n = 0" by simp
    then show ?thesis by (subst two_pow.simps) simp
  next
    case False
    then have "two_pow (n - 1) = 2 ^ nat (n - 1)" using "1.IH" by simp
    moreover have "nat n = Suc (nat (n - 1))" using False by simp
    ultimately show ?thesis using False by (subst two_pow.simps) simp
  qed
qed

lemma bit_length_le: "0 \<le> k \<Longrightarrow> n < two_pow k \<Longrightarrow> bit_length n \<le> k"
proof (induction n arbitrary: k rule: bit_length.induct)
  case (1 n)
  show ?case
  proof (cases "n \<le> 0")
    case True
    then have "bit_length n = 0" by (subst bit_length.simps) simp
    with "1.prems" show ?thesis by simp
  next
    case False
    have kpos: "0 < k"
    proof (rule ccontr)
      assume "\<not> 0 < k"
      with "1.prems" have "k = 0" by simp
      then have "two_pow k = 1" by (subst two_pow.simps) simp
      with "1.prems" False show False by simp
    qed
    from "1.prems"(2) two_pow_Suc [OF kpos] have "n < 2 * two_pow (k - 1)" by simp
    then have "n div 2 < two_pow (k - 1)" by simp
    moreover have "0 \<le> k - 1" using kpos by simp
    ultimately have "bit_length (n div 2) \<le> k - 1" using "1.IH" [OF False] by blast
    moreover have "bit_length n = 1 + bit_length (n div 2)"
      using False by (subst bit_length.simps) simp
    ultimately show ?thesis by simp
  qed
qed

lemma floor_log2_le: "floor_log2 a den \<le> bit_length a"
proof -
  have "0 \<le> bit_length den" by (rule bit_length_nonneg)
  then show ?thesis by (simp add: floor_log2_def Let_def)
qed

lemma round_float_finite:
  assumes "0 \<le> K" and "\<bar>num\<bar> < two_pow K" and "K + e < emax - 1" and "emin < emax - 1"
  shows "\<exists>m k. round_float p emin emax num den e = Finite m k"
proof (cases "num = 0")
  case True
  then show ?thesis by (simp add: round_float_def)
next
  case False
  have "floor_log2 \<bar>num\<bar> den \<le> K"
    using floor_log2_le [of "\<bar>num\<bar>" den] bit_length_le [OF assms(1,2)] by simp
  then have "max (floor_log2 \<bar>num\<bar> den + e) emin - p + 1 < emax - p"
    using assms(3,4) by simp
  then show ?thesis using False by (simp add: round_float_def Let_def)
qed

lemma int_true_div_finite:
  assumes "0 \<le> K" and "\<bar>a\<bar> < 2 ^ nat K" and "K < 1023" and "b \<noteq> 0"
  shows "\<exists>m k. int_true_div a b = Inr (Finite m k)"
proof -
  have "\<bar>a * sgn b\<bar> < two_pow K"
    using assms by (simp add: two_pow_eq abs_mult abs_sgn_eq)
  from round_float_finite [OF assms(1) this, of 0 1024 "- 1022" 53 "\<bar>b\<bar>"] assms(3)
  obtain m k where "to_double (a * sgn b) \<bar>b\<bar> 0 = Finite m k"
    by (auto simp add: to_double_def)
  then show ?thesis using assms(4) by (simp add: int_true_div_def)
qed

lemma two_pow_0: "two_pow 0 = 1"
  by (subst two_pow.simps) simp

lemma two_pow_mono: "a \<le> b \<Longrightarrow> two_pow a \<le> two_pow b"
proof (induction b arbitrary: a rule: two_pow.induct)
  case (1 b)
  show ?case
  proof (cases "b \<le> 0")
    case True
    with "1.prems" have "a \<le> 0" by simp
    then have "two_pow a = 1" by (subst two_pow.simps) simp
    moreover have "two_pow b = 1" using True by (subst two_pow.simps) simp
    ultimately show ?thesis by simp
  next
    case False
    show ?thesis
    proof (cases "a = b")
      case True
      then show ?thesis by simp
    next
      case ne: False
      with "1.prems" have "a \<le> b - 1" by simp
      from "1.IH" [OF False this] have "two_pow a \<le> two_pow (b - 1)" .
      moreover have "two_pow b = 2 * two_pow (b - 1)" using False by (simp add: two_pow_Suc)
      moreover have "0 < two_pow (b - 1)" by (rule two_pow_pos)
      ultimately show ?thesis by simp
    qed
  qed
qed

lemma two_pow_bit_length_le: "0 < n \<Longrightarrow> two_pow (bit_length n - 1) \<le> n"
proof (induction n rule: bit_length.induct)
  case (1 n)
  then have pos: "\<not> n \<le> 0" by simp
  have bl: "bit_length n = 1 + bit_length (n div 2)"
    using pos by (subst bit_length.simps) simp
  show ?case
  proof (cases "n div 2 = 0")
    case True
    then have "bit_length (n div 2) = 0" by (subst bit_length.simps) simp
    with bl have "bit_length n - 1 = 0" by simp
    then show ?thesis using "1.prems" by (simp add: two_pow_0)
  next
    case False
    with "1.prems" have h: "0 < n div 2" by (simp add: pos_imp_zdiv_pos_iff)
    from "1.IH" [OF pos h] have ih: "two_pow (bit_length (n div 2) - 1) \<le> n div 2" .
    have "0 < bit_length (n div 2)"
      using h bit_length_nonneg [of "n div 2 div 2"] by (subst bit_length.simps) simp
    then have "two_pow (bit_length (n div 2)) = 2 * two_pow (bit_length (n div 2) - 1)"
      by (rule two_pow_Suc)
    with ih have "two_pow (bit_length (n div 2)) \<le> 2 * (n div 2)" by simp
    also have "\<dots> \<le> n" by simp
    finally show ?thesis using bl by simp
  qed
qed

lemma round_half_even_ge: "num div den \<le> round_half_even num den"
  by (simp add: round_half_even_def Let_def)

lemma to_double_not_NaN: "to_double a b c \<noteq> NaN"
  by (simp add: to_double_def round_float_def Let_def)

lemma to_double_pos_int:
  assumes "0 < n" and "to_double n 1 0 = Finite m e"
  shows "0 < m"
proof -
  let ?fl = "floor_log2 n 1"
  have b1: "bit_length 1 = 1"
    by (subst bit_length.simps, simp, subst bit_length.simps, simp)
  have n1: "\<bar>n\<bar> = n" using assms(1) by simp
  have bn: "0 < bit_length n"
    using assms(1) bit_length_nonneg [of "n div 2"] by (subst bit_length.simps) simp
  have lo: "- 1 \<le> ?fl" using bn b1 by (simp add: floor_log2_def Let_def)
  have hi: "?fl \<le> bit_length n - 1" using b1 by (simp add: floor_log2_def Let_def)
  let ?k = "max (?fl + 0) (- 1022) - 53 + 1"
  have k: "?k = ?fl - 52" using lo by simp
  let ?m = "(if 0 \<le> 0 - ?k then round_half_even (n * two_pow (0 - ?k)) 1
             else round_half_even n (1 * two_pow (- (0 - ?k))))"
  have "0 < ?m"
  proof (cases "0 \<le> 0 - ?k")
    case True
    have "0 < n * two_pow (0 - ?k)" using assms(1) two_pow_pos by simp
    then have "0 < (n * two_pow (0 - ?k)) div 1" by simp
    with round_half_even_ge [of "n * two_pow (0 - ?k)" 1] True show ?thesis by simp
  next
    case False
    have "two_pow (?fl - 52) \<le> two_pow (bit_length n - 1)"
      using hi by (intro two_pow_mono) simp
    also have "\<dots> \<le> n" using assms(1) by (rule two_pow_bit_length_le)
    finally have le: "two_pow (?fl - 52) \<le> n" .
    have "0 < two_pow (?fl - 52)" by (rule two_pow_pos)
    with le have "0 < n div two_pow (?fl - 52)"
      by (simp add: pos_imp_zdiv_pos_iff)
    moreover from round_half_even_ge [of n "two_pow (?fl - 52)"]
    have "n div two_pow (?fl - 52) \<le> round_half_even n (two_pow (?fl - 52))" .
    ultimately have "0 < round_half_even n (two_pow (?fl - 52))" by simp
    with False k show ?thesis by simp
  qed
  moreover have "m = ?m"
  proof -
    have nz: "n \<noteq> 0" using assms(1) by simp
    have "round_float 53 (- 1022) 1024 n 1 0 = Finite m e"
      using assms(2) by (simp add: to_double_def)
    then show ?thesis
      unfolding round_float_def Let_def n1 using nz by (auto split: if_splits)
  qed
  ultimately show ?thesis by simp
qed

lemma not_fless_iff_fle:
  "x \<noteq> NaN \<Longrightarrow> y \<noteq> NaN \<Longrightarrow> (\<not> fless x y) = fle y x"
proof (cases x; cases y)
  fix m1 e1 m2 e2
  assume "x = Finite m1 e1" "y = Finite m2 e2"
  then show ?thesis
    by (cases "e1 = e2") (auto simp add: aligned_def two_pow_0)
qed simp_all

section \<open>Properties of the GPU manager\<close>

lemmas alloc_defs = alloc_auto_def alloc_single_def alloc_multi_2_def alloc_multi_4_def
  alloc_multi_8_def alloc_fsdp_def

lemma allocate_gpus_auto:
  "allocate_gpus self ''auto'' =
     (let n = mgr_num_gpus self;
          a = (if n = 1 then alloc_single else if n = 2 then alloc_multi_2
               else if n \<ge> 4 then alloc_multi_4 else alloc_single)
      in if n = 0 then Inr ([RequestedMoreGPUs 1 0], alloc_single) else Inr ([], a))"
  by (simp add: allocate_gpus_def dict_get_def GPU_ALLOCATIONS_def alloc_defs Let_def)

lemma allocate_gpus_unknown:
  "nm \<notin> set (map fst GPU_ALLOCATIONS) \<Longrightarrow>
   allocate_gpus self nm =
     (case allocate_gpus self ''auto'' of Inl e \<Rightarrow> Inl e
      | Inr (ws, a) \<Rightarrow> Inr (UnknownAllocationMode nm # ws, a))"
  by (simp add: allocate_gpus_def dict_get_def GPU_ALLOCATIONS_def alloc_defs Let_def)

lemma allocate_gpus_known:
  "map_of GPU_ALLOCATIONS nm = Some r \<Longrightarrow> nm \<noteq> ''auto'' \<Longrightarrow>
   allocate_gpus self nm =
     (if num_gpus r > 0 \<and> num_gpus r > int (mgr_num_gpus self)
      then Inr ([RequestedMoreGPUs (num_gpus r) (mgr_num_gpus self)],
                (if mgr_num_gpus self \<ge> 4 then alloc_multi_4
                 else if mgr_num_gpus self = 2 then alloc_multi_2 else alloc_single))
      else Inr ([], r))"
  by (auto simp add: allocate_gpus_def dict_get_def GPU_ALLOCATIONS_def Let_def split: if_splits)


text \<open>
  Claim C6 says the returned allocation never asks for more devices than are available.
  With no device at all, \<^verbatim>\<open>'auto'\<close> resolves to \<^verbatim>\<open>'single'\<close>, the count check fires, and
  the fallback chooses \<^verbatim>\<open>'single'\<close> again: one device is requested where none exists.
\<close>

theorem allocate_gpus_infeasible_counterexample:
  "allocate_gpus \<lparr>mgr_num_gpus = 0, gpu_memory = []\<rparr> ''auto''
     = Inr ([RequestedMoreGPUs 1 0], alloc_single)
   \<and> \<not> num_gpus alloc_single \<le> int (mgr_num_gpus \<lparr>mgr_num_gpus = 0, gpu_memory = []\<rparr>)"
  by (simp add: allocate_gpus_auto alloc_single_def)

lemma allocate_gpus_props:
  "\<exists>ws a. allocate_gpus self nm = Inr (ws, a)
     \<and> (nm \<notin> set (map fst GPU_ALLOCATIONS) \<longrightarrow>
          (\<exists>ws'. allocate_gpus self ''auto'' = Inr (ws', a) \<and> ws = UnknownAllocationMode nm # ws'))
     \<and> (nm = ''auto'' \<longrightarrow>
          a = (if mgr_num_gpus self = 1 then alloc_single
               else if mgr_num_gpus self = 2 then alloc_multi_2
               else if mgr_num_gpus self \<ge> 4 then alloc_multi_4
               else alloc_single))
     \<and> (\<forall>r. map_of GPU_ALLOCATIONS nm = Some r \<and> nm \<noteq> ''auto'' \<and> int (mgr_num_gpus self) < num_gpus r \<longrightarrow>
          a = (if mgr_num_gpus self \<ge> 4 then alloc_multi_4
               else if mgr_num_gpus self = 2 then alloc_multi_2
               else alloc_single))
     \<and> (\<forall>r. map_of GPU_ALLOCATIONS nm = Some r \<and> nm \<noteq> ''auto'' \<and> num_gpus r \<le> int (mgr_num_gpus self) \<longrightarrow>
          a = r)
     \<and> (1 \<le> mgr_num_gpus self \<longrightarrow> num_gpus a \<le> int (mgr_num_gpus self))"
proof (cases "nm = ''auto''")
  case True
  then show ?thesis
    by (simp add: allocate_gpus_auto Let_def alloc_defs GPU_ALLOCATIONS_def)
next
  case notauto: False
  show ?thesis
  proof (cases "map_of GPU_ALLOCATIONS nm")
    case None
    then have unk: "nm \<notin> set (map fst GPU_ALLOCATIONS)"
      by (simp add: map_of_eq_None_iff)
    show ?thesis
      using notauto None
      by (simp add: allocate_gpus_unknown [OF unk] allocate_gpus_auto Let_def alloc_defs)
  next
    case (Some r)
    then have kn: "nm \<in> set (map fst GPU_ALLOCATIONS)"
      by (metis map_of_eq_None_iff option.distinct(1) set_map)
    have rn: "num_gpus r \<in> {-1, 1, 2, 4, 8}"
      using Some by (auto simp add: GPU_ALLOCATIONS_def alloc_defs split: if_splits)
    show ?thesis
      using notauto Some kn rn
      by (auto simp add: allocate_gpus_known [OF Some notauto] alloc_defs)
  qed
qed

text \<open>
  Claim C6, amended. \<^verbatim>\<open>allocate_gpus\<close> never raises. An unknown name gives the result of
  \<^verbatim>\<open>'auto'\<close> after a warning; \<^verbatim>\<open>'auto'\<close> resolves by device count (1 to single, 2 to
  multi\_2, 4 or more to multi\_4, anything else to single); a catalogue entry asking for
  more devices than are available is replaced by the count's bucket (4 or more to
  multi\_4, 2 to multi\_2, anything else to single); an entry that does not is returned
  as it is; whenever at least one device is available the returned allocation asks for no
  more devices than are available; and \<^verbatim>\<open>'multi_8'\<close> on two devices gives multi\_2.
\<close>

theorem allocate_gpus_degrades:
  "\<exists>ws a. allocate_gpus self nm = Inr (ws, a)
     \<and> (nm \<notin> set (map fst GPU_ALLOCATIONS) \<longrightarrow>
          (\<exists>ws'. allocate_gpus self ''auto'' = Inr (ws', a) \<and> ws = UnknownAllocationMode nm # ws'))
     \<and> (nm = ''auto'' \<longrightarrow>
          a = (if mgr_num_gpus self = 1 then alloc_single
               else if mgr_num_gpus self = 2 then alloc_multi_2
               else if mgr_num_gpus self \<ge> 4 then alloc_multi_4
               else alloc_single))
     \<and> (\<forall>r. map_of GPU_ALLOCATIONS nm = Some r \<and> nm \<noteq> ''auto'' \<and> int (mgr_num_gpus self) < num_gpus r \<longrightarrow>
          a = (if mgr_num_gpus self \<ge> 4 then alloc_multi_4
               else if mgr_num_gpus self = 2 then alloc_multi_2
               else alloc_single))
     \<and> (\<forall>r. map_of GPU_ALLOCATIONS nm = Some r \<and> nm \<noteq> ''auto'' \<and> num_gpus r \<le> int (mgr_num_gpus self) \<longrightarrow>
          a = r)
     \<and> (1 \<le> mgr_num_gpus self \<longrightarrow> num_gpus a \<le> int (mgr_num_gpus self))
     \<and> (nm = ''multi_8'' \<and> mgr_num_gpus self = 2 \<longrightarrow> a = alloc_multi_2)"
proof -
  from allocate_gpus_props [of self nm] obtain ws a where
    r: "allocate_gpus self nm = Inr (ws, a)"
    and unk: "nm \<notin> set (map fst GPU_ALLOCATIONS) \<longrightarrow>
          (\<exists>ws'. allocate_gpus self ''auto'' = Inr (ws', a) \<and> ws = UnknownAllocationMode nm # ws')"
    and auto: "nm = ''auto'' \<longrightarrow>
          a = (if mgr_num_gpus self = 1 then alloc_single
               else if mgr_num_gpus self = 2 then alloc_multi_2
               else if mgr_num_gpus self \<ge> 4 then alloc_multi_4
               else alloc_single)"
    and more: "\<forall>r. map_of GPU_ALLOCATIONS nm = Some r \<and> nm \<noteq> ''auto'' \<and> int (mgr_num_gpus self) < num_gpus r \<longrightarrow>
          a = (if mgr_num_gpus self \<ge> 4 then alloc_multi_4
               else if mgr_num_gpus self = 2 then alloc_multi_2
               else alloc_single)"
    and fits: "\<forall>r. map_of GPU_ALLOCATIONS nm = Some r \<and> nm \<noteq> ''auto'' \<and> num_gpus r \<le> int (mgr_num_gpus self) \<longrightarrow>
          a = r"
    and feas: "1 \<le> mgr_num_gpus self \<longrightarrow> num_gpus a \<le> int (mgr_num_gpus self)"
    by blast
  have m8: "nm = ''multi_8'' \<and> mgr_num_gpus self = 2 \<longrightarrow> a = alloc_multi_2"
  proof
    assume h: "nm = ''multi_8'' \<and> mgr_num_gpus self = 2"
    then have "map_of GPU_ALLOCATIONS nm = Some alloc_multi_8"
      by (simp add: GPU_ALLOCATIONS_def)
    moreover have "nm \<noteq> ''auto''" using h by simp
    moreover have "int (mgr_num_gpus self) < num_gpus alloc_multi_8"
      using h by (simp add: alloc_multi_8_def)
    ultimately have "a = (if mgr_num_gpus self \<ge> 4 then alloc_multi_4
               else if mgr_num_gpus self = 2 then alloc_multi_2
               else alloc_single)"
      using more by blast
    with h show "a = alloc_multi_2" by simp
  qed
  from r unk auto more fits feas m8 show ?thesis by blast
qed

theorem allocate_gpus_degrades_witness:
  "allocate_gpus \<lparr>mgr_num_gpus = 2, gpu_memory = [0, 0]\<rparr> ''multi_8''
     = Inr ([RequestedMoreGPUs 8 2], alloc_multi_2)"
proof -
  let ?self = "\<lparr>mgr_num_gpus = 2, gpu_memory = [0, 0]\<rparr>"
  have m: "map_of GPU_ALLOCATIONS ''multi_8'' = Some alloc_multi_8"
    by (simp add: GPU_ALLOCATIONS_def)
  have h: "''multi_8'' \<noteq> ''auto''" "int (mgr_num_gpus ?self) < num_gpus alloc_multi_8"
    by (simp_all add: alloc_multi_8_def)
  from allocate_gpus_degrades [of ?self "''multi_8''"]
  obtain ws a where r: "allocate_gpus ?self ''multi_8'' = Inr (ws, a)"
    and d: "\<forall>r. map_of GPU_ALLOCATIONS ''multi_8'' = Some r \<and> ''multi_8'' \<noteq> ''auto''
              \<and> int (mgr_num_gpus ?self) < num_gpus r \<longrightarrow>
          a = (if mgr_num_gpus ?self \<ge> 4 then alloc_multi_4
               else if mgr_num_gpus ?self = 2 then alloc_multi_2
               else alloc_single)"
    by blast
  from d m h have "a = alloc_multi_2" by simp
  moreover have "ws = [RequestedMoreGPUs 8 2]"
    using r by (simp add: allocate_gpus_known [OF m h(1)] alloc_multi_8_def)
  ultimately show ?thesis using r by simp
qed

lemma fold_max_ge: "(x::int) \<le> fold max xs x"
  by (induction xs arbitrary: x) (auto intro: order_trans [OF max.cobounded2])

lemma py_index_first:
  "v \<in> set xs \<Longrightarrow>
   \<exists>i. py_index xs v = Inr i \<and> i < length xs \<and> xs ! i = v \<and> (\<forall>j<i. xs ! j \<noteq> v)"
proof (induction xs)
  case Nil
  then show ?case by simp
next
  case (Cons x xs)
  show ?case
  proof (cases "x = v")
    case True
    then show ?thesis by simp
  next
    case False
    with Cons.prems have "v \<in> set xs" by simp
    from Cons.IH [OF this] obtain i where
      i: "py_index xs v = Inr i" "i < length xs" "xs ! i = v" "\<forall>j<i. xs ! j \<noteq> v"
      by blast
    have "\<forall>j<Suc i. (x # xs) ! j \<noteq> v"
      using False i(4) by (auto simp add: less_Suc_eq_0_disj)
    with False i show ?thesis by simp
  qed
qed

lemma py_max_Max:
  "xs \<noteq> [] \<Longrightarrow> py_max xs = Inr (Max (set xs))"
  by (cases xs) (simp_all add: py_max_def Max.set_eq_fold [symmetric])

text \<open>
  Claim C9. The free memory the runtime reports is a byte count below \<open>2\<^sup>6\<^sup>4\<close>. With at
  least one device, \<^verbatim>\<open>get_best_gpu\<close> returns the index of a device whose free memory is
  the largest (the first such index); it raises, with
  \<^verbatim>\<open>RuntimeError("No GPUs available")\<close>, exactly when no device is inventoried.
\<close>

theorem get_best_gpu_most_free:
  assumes range: "\<forall>i<mgr_num_gpus self. 0 \<le> f i \<and> f i < 2 ^ 64"
  shows "(mgr_num_gpus self = 0 \<longrightarrow> get_best_gpu self f = Inl (RuntimeError ''No GPUs available''))
   \<and> (0 < mgr_num_gpus self \<longrightarrow>
        (\<exists>b. get_best_gpu self f = Inr b \<and> b < mgr_num_gpus self
              \<and> (\<forall>i<mgr_num_gpus self. f i \<le> f b) \<and> (\<forall>i<b. f i < f b)))
   \<and> ((\<exists>e. get_best_gpu self f = Inl e) \<longleftrightarrow> mgr_num_gpus self = 0)"
proof -
  let ?n = "mgr_num_gpus self"
  let ?free = "map f [0 ..< ?n]"
  have zero: "?n = 0 \<longrightarrow> get_best_gpu self f = Inl (RuntimeError ''No GPUs available'')"
    by (simp add: get_best_gpu_def)
  have pos: "\<exists>b. get_best_gpu self f = Inr b \<and> b < ?n
              \<and> (\<forall>i<?n. f i \<le> f b) \<and> (\<forall>i<b. f i < f b)" if n: "0 < ?n"
  proof -
    from n have ne: "?free \<noteq> []" by simp
    let ?m = "Max (set ?free)"
    have mem: "?m \<in> set ?free" using ne by (intro Max_in) simp_all
    from py_index_first [OF mem] obtain b where
      b: "py_index ?free ?m = Inr b" "b < length ?free" "?free ! b = ?m"
         "\<forall>j<b. ?free ! j \<noteq> ?m"
      by blast
    have bn: "b < ?n" using b(2) by simp
    have fb: "f b = ?m" using b(3) bn by simp
    have le: "f i \<le> f b" if "i < ?n" for i
    proof -
      from that have "f i \<in> set ?free" by auto
      then have "f i \<le> ?m" by (intro Max_ge) simp_all
      with fb show ?thesis by simp
    qed
    have lt: "f i < f b" if "i < b" for i
    proof -
      from that bn have "i < ?n" by simp
      from le [OF this] have "f i \<le> f b" .
      moreover from b(4) that \<open>i < ?n\<close> have "f i \<noteq> ?m" by auto
      ultimately show ?thesis using fb by simp
    qed
    from range bn have "\<bar>f b\<bar> < 2 ^ nat 64" by simp
    from int_true_div_finite [OF _ this, of "1024 ^ 3"]
    obtain m k where "int_true_div (f b) (1024 ^ 3) = Inr (Finite m k)" by auto
    with b(3) fb have dv: "int_true_div (?free ! b) (1024 ^ 3) = Inr (Finite m k)" by simp
    have "get_best_gpu self f = Inr b"
      using n b(1) dv by (simp add: get_best_gpu_def py_max_Max [OF ne])
    with bn le lt show ?thesis by blast
  qed
  have iff: "(\<exists>e. get_best_gpu self f = Inl e) \<longleftrightarrow> ?n = 0"
  proof
    assume "\<exists>e. get_best_gpu self f = Inl e"
    then show "?n = 0" using pos by (cases "?n = 0") auto
  next
    assume "?n = 0"
    with zero show "\<exists>e. get_best_gpu self f = Inl e" by blast
  qed
  from zero pos iff show ?thesis by blast
qed

theorem get_best_gpu_most_free_witness:
  "get_best_gpu \<lparr>mgr_num_gpus = 3, gpu_memory = [24, 24, 24]\<rparr> (\<lambda>i. [5, 9, 9] ! i) = Inr 1
   \<and> get_best_gpu \<lparr>mgr_num_gpus = 0, gpu_memory = []\<rparr> (\<lambda>i. 0)
       = Inl (RuntimeError ''No GPUs available'')"
proof -
  let ?s = "\<lparr>mgr_num_gpus = 3, gpu_memory = [24, 24, 24]\<rparr>"
  let ?f = "\<lambda>i::nat. [5, 9, 9::int] ! i"
  have p: "0 < mgr_num_gpus ?s" by simp
  have r: "\<forall>i<mgr_num_gpus ?s. 0 \<le> ?f i \<and> ?f i < 2 ^ 64"
  proof (intro allI impI)
    fix i assume "i < mgr_num_gpus ?s"
    then have "i = 0 \<or> i = 1 \<or> i = 2" by auto
    then show "0 \<le> ?f i \<and> ?f i < 2 ^ 64" by auto
  qed
  from get_best_gpu_most_free [of ?s ?f, OF r] p
  obtain b where b: "get_best_gpu ?s ?f = Inr b" "b < 3" "\<forall>i<3. ?f i \<le> ?f b" "\<forall>i<b. ?f i < ?f b"
    by auto
  from b(2) have c: "b = 0 \<or> b = 1 \<or> b = 2" by arith
  have one: "(1::nat) < 3" by simp
  from b(3) one have "?f 1 \<le> ?f b" by blast
  then have "b \<noteq> 0" by (cases "b = 0") simp_all
  moreover have "b \<noteq> 2"
  proof
    assume "b = 2"
    with b(4) have "\<forall>i<2. ?f i < ?f 2" by simp
    moreover have "(1::nat) < 2" by simp
    ultimately have "?f 1 < ?f 2" by blast
    then show False by simp
  qed
  ultimately have "b = 1" using c by simp
  moreover have "get_best_gpu \<lparr>mgr_num_gpus = 0, gpu_memory = []\<rparr> (\<lambda>i. 0)
       = Inl (RuntimeError ''No GPUs available'')"
    using get_best_gpu_most_free [of "\<lparr>mgr_num_gpus = 0, gpu_memory = []\<rparr>" "\<lambda>i. 0"] by simp
  ultimately show ?thesis using b(1) by simp
qed

section \<open>Properties of the sharding strategy\<close>

lemma fmul_float_lit_not_NaN:
  assumes "fless (Finite 0 0) a" and "float_lit p q = Finite m e" and "0 < m"
  shows "fmul a (float_lit p q) \<noteq> NaN"
proof (cases a)
  case (Finite m1 e1)
  then show ?thesis using assms(2) by (simp add: to_double_not_NaN)
next
  case PosInf
  then show ?thesis using assms(2,3) by (simp add: fsign_def Let_def)
next
  case NegInf
  then show ?thesis using assms(1) by simp
next
  case NaN
  then show ?thesis using assms(1) by simp
qed

lemma float_lit_5_10: "float_lit 5 10 = Finite 4503599627370496 (- 53)"
  by code_simp

lemma float_lit_8_10: "float_lit 8 10 = Finite 7205759403792794 (- 53)"
  by code_simp

lemma fdiv_pos_not_NaN:
  assumes "fless (Finite 0 0) x" and "m2 \<noteq> 0"
  shows "\<exists>per. fdiv x (Finite m2 e2) = Inr per \<and> per \<noteq> NaN"
  using assms by (cases x) (simp_all add: to_double_not_NaN)

text \<open>
  Claim C5 promises a strategy for every positive device count. The division converts
  the count to a float first, and a count of \<open>2\<^sup>1\<^sup>0\<^sup>2\<^sup>4\<close> or more has no float:
  \<^verbatim>\<open>get_optimal_sharding_strategy\<close> raises \<^verbatim>\<open>OverflowError\<close> there.
\<close>

theorem sharding_strategy_overflow_counterexample:
  "get_optimal_sharding_strategy (2 ^ 1024) (Finite 40 0) (Finite 16 0) = Inl OverflowError"
  by code_simp

text \<open>
  Claim C5, amended. For every positive device count that converts to a float, and every
  positive model size and positive available memory, the memory per device is the model
  size divided by the count, and the result is \<^verbatim>\<open>SHARD_GRAD_OP\<close> when it is below half
  the available memory, \<^verbatim>\<open>FULL_SHARD\<close> when it is at least half and below 0.8 times the
  available memory, and \<^verbatim>\<open>HYBRID_SHARD\<close> otherwise. In particular 4 devices, 40 GB and
  16 GB give \<^verbatim>\<open>FULL_SHARD\<close>; 4 devices, 20 GB and 16 GB give \<^verbatim>\<open>SHARD_GRAD_OP\<close>; 2 devices,
  40 GB and 16 GB give \<^verbatim>\<open>HYBRID_SHARD\<close>.
\<close>

theorem get_optimal_sharding_strategy_thresholds:
  "(0 < n \<and> int_to_float n = Inr nf \<and> fless (Finite 0 0) model_size_gb
      \<and> fless (Finite 0 0) available_memory_gb \<longrightarrow>
    (\<exists>per. fdiv model_size_gb nf = Inr per \<and>
       get_optimal_sharding_strategy n model_size_gb available_memory_gb =
         Inr (if fless per (fmul available_memory_gb (float_lit 5 10)) then SHARD_GRAD_OP
              else if fle (fmul available_memory_gb (float_lit 5 10)) per
                       \<and> fless per (fmul available_memory_gb (float_lit 8 10))
              then FULL_SHARD
              else HYBRID_SHARD)))
   \<and> get_optimal_sharding_strategy 4 (Finite 40 0) (Finite 16 0) = Inr FULL_SHARD
   \<and> get_optimal_sharding_strategy 4 (Finite 20 0) (Finite 16 0) = Inr SHARD_GRAD_OP
   \<and> get_optimal_sharding_strategy 2 (Finite 40 0) (Finite 16 0) = Inr HYBRID_SHARD"
proof -
  have gen: "\<exists>per. fdiv model_size_gb nf = Inr per \<and>
       get_optimal_sharding_strategy n model_size_gb available_memory_gb =
         Inr (if fless per (fmul available_memory_gb (float_lit 5 10)) then SHARD_GRAD_OP
              else if fle (fmul available_memory_gb (float_lit 5 10)) per
                       \<and> fless per (fmul available_memory_gb (float_lit 8 10))
              then FULL_SHARD
              else HYBRID_SHARD)"
    if h: "0 < n" "int_to_float n = Inr nf" "fless (Finite 0 0) model_size_gb"
          "fless (Finite 0 0) available_memory_gb"
  proof -
    have "\<exists>m e. nf = Finite m e \<and> to_double n 1 0 = Finite m e"
      using h(2) by (cases "to_double n 1 0") (auto simp add: int_to_float_def)
    then obtain m e where nf: "nf = Finite m e" and td: "to_double n 1 0 = Finite m e"
      by blast
    from to_double_pos_int [OF h(1) td] have "m \<noteq> 0" by simp
    from fdiv_pos_not_NaN [OF h(3) this, of e] nf
    obtain per where per: "fdiv model_size_gb nf = Inr per" "per \<noteq> NaN" by blast
    have half: "fmul available_memory_gb (float_lit 5 10) \<noteq> NaN"
      by (rule fmul_float_lit_not_NaN [OF h(4) float_lit_5_10]) simp
    from not_fless_iff_fle [OF per(2) half]
    have eq: "(\<not> fless per (fmul available_memory_gb (float_lit 5 10)))
              = fle (fmul available_memory_gb (float_lit 5 10)) per" .
    have "get_optimal_sharding_strategy n model_size_gb available_memory_gb =
         Inr (if fless per (fmul available_memory_gb (float_lit 5 10)) then SHARD_GRAD_OP
              else if fless per (fmul available_memory_gb (float_lit 8 10))
              then FULL_SHARD
              else HYBRID_SHARD)"
      using h(2) per(1) by (simp add: get_optimal_sharding_strategy_def)
    with eq per(1) show ?thesis by auto
  qed
  have ex1: "get_optimal_sharding_strategy 4 (Finite 40 0) (Finite 16 0) = Inr FULL_SHARD"
    by code_simp
  have ex2: "get_optimal_sharding_strategy 4 (Finite 20 0) (Finite 16 0) = Inr SHARD_GRAD_OP"
    by code_simp
  have ex3: "get_optimal_sharding_strategy 2 (Finite 40 0) (Finite 16 0) = Inr HYBRID_SHARD"
    by code_simp
  from gen ex1 ex2 ex3 show ?thesis by blast
qed

lemma int_to_float_4: "int_to_float 4 = Inr (Finite 4503599627370496 (- 50))"
  by code_simp

theorem get_optimal_sharding_strategy_thresholds_witness:
  "(0::int) < 4 \<and> int_to_float 4 = Inr (Finite 4503599627370496 (- 50))
   \<and> fless (Finite 0 0) (Finite 40 0) \<and> fless (Finite 0 0) (Finite 16 0)
   \<and> fdiv (Finite 40 0) (Finite 4503599627370496 (- 50)) = Inr (Finite 5629499534213120 (- 49))
   \<and> feq (Finite 5629499534213120 (- 49)) (Finite 10 0)
   \<and> \<not> fless (Finite 5629499534213120 (- 49)) (fmul (Finite 16 0) (float_lit 5 10))
   \<and> fle (fmul (Finite 16 0) (float_lit 5 10)) (Finite 5629499534213120 (- 49))
   \<and> fless (Finite 5629499534213120 (- 49)) (fmul (Finite 16 0) (float_lit 8 10))
   \<and> get_optimal_sharding_strategy 4 (Finite 40 0) (Finite 16 0) = Inr FULL_SHARD"
proof -
  let ?P = "Finite 5629499534213120 (- 49)"
  let ?nf = "Finite 4503599627370496 (- 50)"
  have h: "(0::int) < 4 \<and> int_to_float 4 = Inr ?nf
      \<and> fless (Finite 0 0) (Finite 40 0) \<and> fless (Finite 0 0) (Finite 16 0)"
    by (simp add: int_to_float_4 aligned_def two_pow_0)
  have d: "fdiv (Finite 40 0) ?nf = Inr ?P"
    by code_simp
  have q: "feq ?P (Finite 10 0)"
    by code_simp
  have c1: "\<not> fless ?P (fmul (Finite 16 0) (float_lit 5 10))"
    by code_simp
  have c2: "fle (fmul (Finite 16 0) (float_lit 5 10)) ?P"
    by code_simp
  have c3: "fless ?P (fmul (Finite 16 0) (float_lit 8 10))"
    by code_simp
  from get_optimal_sharding_strategy_thresholds [of 4 ?nf "Finite 40 0" "Finite 16 0"] h
  obtain per where per: "fdiv (Finite 40 0) ?nf = Inr per"
    and res: "get_optimal_sharding_strategy 4 (Finite 40 0) (Finite 16 0) =
         Inr (if fless per (fmul (Finite 16 0) (float_lit 5 10)) then SHARD_GRAD_OP
              else if fle (fmul (Finite 16 0) (float_lit 5 10)) per
                       \<and> fless per (fmul (Finite 16 0) (float_lit 8 10))
              then FULL_SHARD
              else HYBRID_SHARD)"
    by blast
  from per d have "per = ?P" by simp
  with res c1 c2 c3
  have r: "get_optimal_sharding_strategy 4 (Finite 40 0) (Finite 16 0) = Inr FULL_SHARD"
    by (simp only: if_False if_True simp_thms)
  from h d q c1 c2 c3 r show ?thesis by (intro conjI) (elim conjE, assumption)+
qed

section \<open>Properties of the VRAM estimate and the recommended settings\<close>
















end
